theory Spec2Isabelle
  imports Complex_Main "HOL-Library.AList"
begin

section \<open>Values of the protocol\<close>

text \<open>
  The snapshot arrives as JSON, and \<^verbatim>\<open>AXValue.value\<close> is declared \<^verbatim>\<open>any\<close>; the property
  map of \<^verbatim>\<open>serialize\<close> is declared \<^verbatim>\<open>Map<string, number | string | boolean>\<close>. A value is
  therefore a boolean, a (finite, JSON) number, a string, or \<^verbatim>\<open>undefined\<close> where the optional
  \<^verbatim>\<open>value\<close> member is missing or a map lookup finds nothing.
  Strict equality \<^verbatim>\<open>===\<close> on these values is equality of the datatype.
\<close>

datatype jsval = JSUndefined | JSBool bool | JSNum rat | JSStr string

text \<open>Truthiness, as used by \<^verbatim>\<open>if (v)\<close>, \<^verbatim>\<open>!v\<close>, \<^verbatim>\<open>a || b\<close> and \<^verbatim>\<open>a && b\<close>.\<close>

fun truthy :: "jsval \<Rightarrow> bool" where
  "truthy JSUndefined = False"
| "truthy (JSBool b) = b"
| "truthy (JSNum n) = (n \<noteq> 0)"
| "truthy (JSStr s) = (s \<noteq> [])"

text \<open>
  \<^verbatim>\<open>String.prototype.toLowerCase\<close> on the ASCII letters (protocol property names are
  ASCII identifiers); every other character is left as it is.
\<close>

definition lower_char :: "char \<Rightarrow> char" where
  "lower_char c =
     (case map_of (zip ''ABCDEFGHIJKLMNOPQRSTUVWXYZ'' ''abcdefghijklmnopqrstuvwxyz'') c of
        None \<Rightarrow> c
      | Some d \<Rightarrow> d)"

definition toLowerCase :: "string \<Rightarrow> string" where
  "toLowerCase s = map lower_char s"

section \<open>The payload: \<^verbatim>\<open>Protocol.Accessibility.AXNode\<close>\<close>

text \<open>
  An optional member \<^verbatim>\<open>role?: AXValue\<close> is \<open>None\<close> when the member is missing and
  \<open>Some v\<close> when it is an \<^verbatim>\<open>AXValue\<close> object whose \<^verbatim>\<open>.value\<close> is \<open>v\<close> (an object is
  always truthy, whatever it holds). A property \<^verbatim>\<open>{name, value}\<close> is the pair of its name
  and \<^verbatim>\<open>value.value\<close>.
\<close>

record AXNode =
  p_nodeId :: string
  p_role :: "jsval option"
  p_name :: "jsval option"
  p_value :: "jsval option"
  p_description :: "jsval option"
  p_properties :: "(string \<times> jsval) list option"
  p_childIds :: "string list option"

section \<open>The node: class \<^verbatim>\<open>CRAXNode\<close>\<close>

text \<open>
  The fields of the class, without the leading underscore. \<^verbatim>\<open>_children\<close> is declared
  \<^verbatim>\<open>CRAXNode[]\<close>: a node owns the list of its child nodes. \<^verbatim>\<open>_focusable\<close>, \<^verbatim>\<open>_expanded\<close>
  and \<^verbatim>\<open>_hidden\<close> receive \<^verbatim>\<open>property.value.value\<close> as it comes, \<^verbatim>\<open>_name\<close> and \<^verbatim>\<open>_role\<close>
  receive the \<^verbatim>\<open>.value\<close> of the payload's members; the code reads the flags and the name
  only for their truthiness. \<^verbatim>\<open>_cachedHasFocusableChild\<close> is \<open>None\<close> while \<^verbatim>\<open>undefined\<close>.
  The session \<^verbatim>\<open>_client\<close> plays no part in the functions below and is left out.
\<close>

datatype CRAXNode = CRAXNode
  (payload: AXNode)
  (children: "CRAXNode list")
  (richlyEditable: bool)
  (editable: bool)
  (focusable: jsval)
  (expanded: jsval)
  (hidden: jsval)
  (name: jsval)
  (role: jsval)
  (cachedHasFocusableChild: "bool option")

text \<open>Assignments to single fields.\<close>

fun set_children :: "CRAXNode list \<Rightarrow> CRAXNode \<Rightarrow> CRAXNode" where
  "set_children cs' (CRAXNode p cs re e f x h nm r ca) = CRAXNode p cs' re e f x h nm r ca"

fun set_richlyEditable :: "bool \<Rightarrow> CRAXNode \<Rightarrow> CRAXNode" where
  "set_richlyEditable re' (CRAXNode p cs re e f x h nm r ca) = CRAXNode p cs re' e f x h nm r ca"

fun set_editable :: "bool \<Rightarrow> CRAXNode \<Rightarrow> CRAXNode" where
  "set_editable e' (CRAXNode p cs re e f x h nm r ca) = CRAXNode p cs re e' f x h nm r ca"

fun set_focusable :: "jsval \<Rightarrow> CRAXNode \<Rightarrow> CRAXNode" where
  "set_focusable f' (CRAXNode p cs re e f x h nm r ca) = CRAXNode p cs re e f' x h nm r ca"

fun set_expanded :: "jsval \<Rightarrow> CRAXNode \<Rightarrow> CRAXNode" where
  "set_expanded x' (CRAXNode p cs re e f x h nm r ca) = CRAXNode p cs re e f x' h nm r ca"

fun set_hidden :: "jsval \<Rightarrow> CRAXNode \<Rightarrow> CRAXNode" where
  "set_hidden h' (CRAXNode p cs re e f x h nm r ca) = CRAXNode p cs re e f x h' nm r ca"

subsection \<open>The constructor\<close>

text \<open>One round of the loop over \<^verbatim>\<open>this._payload.properties || []\<close>.\<close>

fun applyProperty :: "string \<times> jsval \<Rightarrow> CRAXNode \<Rightarrow> CRAXNode" where
  "applyProperty (pname, v) n =
     (let n1 = (if pname = ''editable''
                then set_editable True (set_richlyEditable (v = JSStr ''richtext'') n)
                else n);
          n2 = (if pname = ''focusable'' then set_focusable v n1 else n1);
          n3 = (if pname = ''expanded'' then set_expanded v n2 else n2);
          n4 = (if pname = ''hidden'' then set_hidden v n3 else n3)
      in n4)"

definition new_CRAXNode :: "AXNode \<Rightarrow> CRAXNode" where
  "new_CRAXNode p =
     fold applyProperty (case p_properties p of None \<Rightarrow> [] | Some ps \<Rightarrow> ps)
       (CRAXNode p [] False False (JSBool False) (JSBool False) (JSBool False)
          (case p_name p of None \<Rightarrow> JSStr '''' | Some v \<Rightarrow> v)
          (case p_role p of None \<Rightarrow> JSStr ''Unknown'' | Some v \<Rightarrow> v)
          None)"

subsection \<open>Classification\<close>

definition isPlainTextField :: "CRAXNode \<Rightarrow> bool" where
  "isPlainTextField n =
     (if richlyEditable n then False
      else if editable n then True
      else role n = JSStr ''textbox'' \<or> role n = JSStr ''ComboBox'' \<or> role n = JSStr ''searchbox'')"

definition isTextOnlyObject :: "CRAXNode \<Rightarrow> bool" where
  "isTextOnlyObject n =
     (let r = role n
      in r = JSStr ''LineBreak'' \<or> r = JSStr ''text'' \<or> r = JSStr ''InlineTextBox'')"

text \<open>
  \<^verbatim>\<open>_hasFocusableChild\<close> writes the cache of the node and of the children it asks, so
  the model returns the node as the call leaves it together with the answer. The loop over
  \<^verbatim>\<open>this._children\<close> stops at the first child that is focusable or has a focusable child
  (\<^verbatim>\<open>break\<close>); the children behind it are not asked. The code first stores \<^verbatim>\<open>false\<close> and
  overwrites it with \<^verbatim>\<open>true\<close> on success; no child of an owned list of children can read
  the node's cache in between, and the model stores the final value.
\<close>

fun hasFocusableChild :: "CRAXNode \<Rightarrow> bool \<times> CRAXNode"
  and hasFocusableChild_loop :: "CRAXNode list \<Rightarrow> bool \<times> CRAXNode list" where
  "hasFocusableChild (CRAXNode p cs re e f x h nm r ca) =
     (case ca of
        None \<Rightarrow>
          (let (found, cs') = hasFocusableChild_loop cs
           in (found, CRAXNode p cs' re e f x h nm r (Some found)))
      | Some cached \<Rightarrow> (cached, CRAXNode p cs re e f x h nm r ca))"
| "hasFocusableChild_loop [] = (False, [])"
| "hasFocusableChild_loop (child # rest) =
     (if truthy (focusable child) then (True, child # rest)
      else (let (b, child') = hasFocusableChild child
            in if b then (True, child' # rest)
               else (let (found, rest') = hasFocusableChild_loop rest
                     in (found, child' # rest'))))"

text \<open>\<^verbatim>\<open>find\<close>: the predicate is a function to \<^verbatim>\<open>boolean\<close>; \<open>None\<close> is \<^verbatim>\<open>null\<close>.\<close>

fun find_node :: "(CRAXNode \<Rightarrow> bool) \<Rightarrow> CRAXNode \<Rightarrow> CRAXNode option"
  and find_children :: "(CRAXNode \<Rightarrow> bool) \<Rightarrow> CRAXNode list \<Rightarrow> CRAXNode option" where
  "find_node predicate (CRAXNode p cs re e f x h nm r ca) =
     (if predicate (CRAXNode p cs re e f x h nm r ca)
      then Some (CRAXNode p cs re e f x h nm r ca)
      else find_children predicate cs)"
| "find_children predicate [] = None"
| "find_children predicate (child # rest) =
     (case find_node predicate child of
        Some result \<Rightarrow> Some result
      | None \<Rightarrow> find_children predicate rest)"

text \<open>
  \<^verbatim>\<open>isLeafNode\<close> may call \<^verbatim>\<open>_hasFocusableChild\<close>, so it returns the node as well.
\<close>

definition isLeafNode :: "CRAXNode \<Rightarrow> bool \<times> CRAXNode" where
  "isLeafNode n =
     (if length (children n) = 0 then (True, n)
      else if isPlainTextField n \<or> isTextOnlyObject n then (True, n)
      else if role n \<in> set [JSStr ''doc-cover'', JSStr ''graphics-symbol'', JSStr ''img'',
                JSStr ''Meter'', JSStr ''scrollbar'', JSStr ''slider'', JSStr ''separator'',
                JSStr ''progressbar'']
      then (True, n)
      else (let (hasFocusable, n') = hasFocusableChild n
            in if hasFocusable then (False, n')
               else if truthy (focusable n') \<and> truthy (name n') then (True, n')
               else if role n' = JSStr ''heading'' \<and> truthy (name n') then (True, n')
               else (False, n')))"

definition isControl :: "CRAXNode \<Rightarrow> bool" where
  "isControl n =
     (if role n \<in> set [JSStr ''button'', JSStr ''checkbox'', JSStr ''ColorWell'',
            JSStr ''combobox'', JSStr ''DisclosureTriangle'', JSStr ''listbox'', JSStr ''menu'',
            JSStr ''menubar'', JSStr ''menuitem'', JSStr ''menuitemcheckbox'',
            JSStr ''menuitemradio'', JSStr ''radio'', JSStr ''scrollbar'', JSStr ''searchbox'',
            JSStr ''slider'', JSStr ''spinbutton'', JSStr ''switch'', JSStr ''tab'',
            JSStr ''textbox'', JSStr ''tree'']
      then True
      else False)"

definition isInteresting :: "bool \<Rightarrow> CRAXNode \<Rightarrow> bool \<times> CRAXNode" where
  "isInteresting insideControl n =
     (let r = role n
      in if r = JSStr ''Ignored'' \<or> truthy (hidden n) then (False, n)
         else if truthy (focusable n) \<or> richlyEditable n then (True, n)
         else if isControl n then (True, n)
         else if insideControl then (False, n)
         else (let (leaf, n') = isLeafNode n in (leaf \<and> truthy (name n'), n')))"

subsection \<open>Serialization\<close>

text \<open>
  A JavaScript \<^verbatim>\<open>Map\<close> and the output object are association lists in insertion order;
  setting a key that is there replaces its value in place, which is \<^const>\<open>AList.update\<close>.
  \<^verbatim>\<open>get\<close> of a missing key is \<^verbatim>\<open>undefined\<close>.
\<close>

definition Map_has :: "(string \<times> jsval) list \<Rightarrow> string \<Rightarrow> bool" where
  "Map_has m k = (map_of m k \<noteq> None)"

definition Map_get :: "(string \<times> jsval) list \<Rightarrow> string \<Rightarrow> jsval" where
  "Map_get m k = (case map_of m k of None \<Rightarrow> JSUndefined | Some v \<Rightarrow> v)"

text \<open>
  Reading a member of \<^verbatim>\<open>undefined\<close> throws a \<^verbatim>\<open>TypeError\<close>; it is the only exception
  the modelled code can raise.
\<close>

datatype error = TypeError

text \<open>The map \<^verbatim>\<open>properties\<close> that \<^verbatim>\<open>serialize\<close> builds first.\<close>

definition serialize_properties :: "CRAXNode \<Rightarrow> (string \<times> jsval) list" where
  "serialize_properties n =
     (let m0 = fold (\<lambda>(pname, v). AList.update (toLowerCase pname) v)
                 (case p_properties (payload n) of None \<Rightarrow> [] | Some ps \<Rightarrow> ps) [];
          m1 = (case p_name (payload n) of None \<Rightarrow> m0 | Some v \<Rightarrow> AList.update ''name'' v m0);
          m2 = (case p_value (payload n) of None \<Rightarrow> m1 | Some v \<Rightarrow> AList.update ''value'' v m1);
          m3 = (case p_description (payload n) of None \<Rightarrow> m2
                | Some v \<Rightarrow> AList.update ''description'' v m2)
      in m3)"

text \<open>The bodies of the five loops over the lists of field names.\<close>

definition userStringStep ::
  "(string \<times> jsval) list \<Rightarrow> string \<Rightarrow> (string \<times> jsval) list \<Rightarrow> (string \<times> jsval) list" where
  "userStringStep properties k node =
     (if \<not> Map_has properties k then node
      else AList.update k (Map_get properties k) node)"

definition booleanStep ::
  "jsval \<Rightarrow> (string \<times> jsval) list \<Rightarrow> string \<Rightarrow> (string \<times> jsval) list
     \<Rightarrow> (string \<times> jsval) list" where
  "booleanStep r properties k node =
     (if k = ''focused'' \<and> r = JSStr ''WebArea'' then node
      else (let v = Map_get properties k
            in if \<not> truthy v then node else AList.update k v node))"

definition tristateStep ::
  "(string \<times> jsval) list \<Rightarrow> string \<Rightarrow> (string \<times> jsval) list \<Rightarrow> (string \<times> jsval) list" where
  "tristateStep properties k node =
     (if \<not> Map_has properties k then node
      else (let v = Map_get properties k
            in AList.update k
                 (if v = JSStr ''mixed'' then JSStr ''mixed''
                  else if v = JSStr ''true'' then JSBool True else JSBool False)
                 node))"

definition numericalStep ::
  "(string \<times> jsval) list \<Rightarrow> string \<Rightarrow> (string \<times> jsval) list \<Rightarrow> (string \<times> jsval) list" where
  "numericalStep properties k node =
     (if \<not> Map_has properties k then node
      else AList.update k (Map_get properties k) node)"

definition tokenStep ::
  "(string \<times> jsval) list \<Rightarrow> string \<Rightarrow> (string \<times> jsval) list \<Rightarrow> (string \<times> jsval) list" where
  "tokenStep properties k node =
     (let v = Map_get properties k
      in if \<not> truthy v \<or> v = JSStr ''false'' then node else AList.update k v node)"

definition userStringProperties :: "string list" where
  "userStringProperties = [''value'', ''description'', ''keyshortcuts'', ''roledescription'',
     ''valuetext'']"

definition booleanProperties :: "string list" where
  "booleanProperties = [''disabled'', ''expanded'', ''focused'', ''modal'', ''multiline'',
     ''multiselectable'', ''readonly'', ''required'', ''selected'']"

definition tristateProperties :: "string list" where
  "tristateProperties = [''checked'', ''pressed'']"

definition numericalProperties :: "string list" where
  "numericalProperties = [''level'', ''valuemax'', ''valuemin'']"

definition tokenProperties :: "string list" where
  "tokenProperties = [''autocomplete'', ''haspopup'', ''invalid'', ''orientation'']"

text \<open>
  The object literal reads \<^verbatim>\<open>this._payload.name.value\<close> with no test of
  \<^verbatim>\<open>this._payload.name\<close>: on a payload without the member this throws, after the map has
  been built and before any field is written.
\<close>

definition serialize :: "CRAXNode \<Rightarrow> error + (string \<times> jsval) list" where
  "serialize n =
     (let properties = serialize_properties n
      in case p_name (payload n) of
           None \<Rightarrow> Inl TypeError
         | Some v \<Rightarrow>
             (let node0 = [(''role'', role n), (''name'', if truthy v then v else JSStr '''')];
                  node1 = fold (userStringStep properties) userStringProperties node0;
                  node2 = fold (booleanStep (role n) properties) booleanProperties node1;
                  node3 = fold (tristateStep properties) tristateProperties node2;
                  node4 = fold (numericalStep properties) numericalProperties node3;
                  node5 = fold (tokenStep properties) tokenProperties node4
              in Inr node5))"

section \<open>Tree construction\<close>

text \<open>
  \<^verbatim>\<open>createTree\<close> fills the \<^verbatim>\<open>_children\<close> arrays with what \<^verbatim>\<open>nodeById.get(childId)\<close>
  returns: a reference to an object of the map, or \<^verbatim>\<open>undefined\<close>. An object of the map is
  identified by its key, so a reference is that key, \<open>None\<close> is \<^verbatim>\<open>undefined\<close>, and an
  object is the node as the constructor left it (\<open>obj\<close>) together with its array of
  references (\<open>children_refs\<close>). The function has no \<^verbatim>\<open>throw\<close>; it returns the map's
  first value, which is \<^verbatim>\<open>undefined\<close> for an empty map.
\<close>

record node_object =
  obj :: CRAXNode
  children_refs :: "string option list"

text \<open>
  The first loop, \<^verbatim>\<open>nodeById.set(payload.nodeId, new CRAXNode(client, payload))\<close>, from a
  given state of the map.
\<close>

definition nodeById_loop ::
  "AXNode list \<Rightarrow> (string \<times> CRAXNode) list \<Rightarrow> (string \<times> CRAXNode) list" where
  "nodeById_loop payloads nodeById =
     fold (\<lambda>pl. AList.update (p_nodeId pl) (new_CRAXNode pl)) payloads nodeById"

definition createTree :: "AXNode list \<Rightarrow> (string \<times> node_object) list \<times> string option" where
  "createTree payloads =
     (let nodeById = nodeById_loop payloads [];
          linked = map (\<lambda>(k, nd).
                     (k, \<lparr>obj = nd,
                          children_refs =
                            map (\<lambda>childId. if map_of nodeById childId = None then None
                                            else Some childId)
                              (case p_childIds (payload nd) of None \<Rightarrow> [] | Some ids \<Rightarrow> ids)\<rparr>))
                     nodeById
      in (linked, case linked of [] \<Rightarrow> None | (k, _) # _ \<Rightarrow> Some k))"

text \<open>
  Following the references from an object gives the node with its children as the
  classification functions see it, when every reference leads to an object and no object
  is its own descendant. \<open>node_at\<close> reads that node off the map; the fuel bounds the depth,
  and \<open>None\<close> says that a reference was \<^verbatim>\<open>undefined\<close> or that the fuel ran out.
\<close>

fun node_at :: "nat \<Rightarrow> (string \<times> node_object) list \<Rightarrow> string \<Rightarrow> CRAXNode option" where
  "node_at 0 heap r = None"
| "node_at (Suc fuel) heap r =
     (case map_of heap r of
        None \<Rightarrow> None
      | Some ob \<Rightarrow>
          (case those (map (\<lambda>c. case c of None \<Rightarrow> None | Some r' \<Rightarrow> node_at fuel heap r')
                        (children_refs ob)) of
             None \<Rightarrow> None
           | Some cs \<Rightarrow> Some (set_children cs (obj ob))))"

section \<open>Notions used in the statements\<close>

text \<open>The nodes of a tree in the order of a depth-first walk: a node, then its children
  from left to right, each with its own subtree.\<close>

fun preorder :: "CRAXNode \<Rightarrow> CRAXNode list" where
  "preorder (CRAXNode p cs re e f x h nm r ca) =
     CRAXNode p cs re e f x h nm r ca # concat (map preorder cs)"

text \<open>The transitive descendants of a node: its children, their children, and so on.\<close>

fun descendants :: "CRAXNode \<Rightarrow> CRAXNode list" where
  "descendants (CRAXNode p cs re e f x h nm r ca) = concat (map (\<lambda>c. c # descendants c) cs)"

definition hasFocusableDescendant :: "CRAXNode \<Rightarrow> bool" where
  "hasFocusableDescendant n = list_ex (\<lambda>d. truthy (focusable d)) (descendants n)"

text \<open>
  The cache is private and written by \<^verbatim>\<open>_hasFocusableChild\<close> alone. \<open>cache_ok\<close> is the
  state of the caches that the program can reach: in the node and in every node below it
  the cache is \<^verbatim>\<open>undefined\<close> or holds the answer for that node.
\<close>

fun cache_ok :: "CRAXNode \<Rightarrow> bool" where
  "cache_ok (CRAXNode p cs re e f x h nm r ca) =
     ((case ca of
         None \<Rightarrow> True
       | Some cached \<Rightarrow> cached = hasFocusableDescendant (CRAXNode p cs re e f x h nm r ca))
      \<and> list_all cache_ok cs)"

text \<open>Two nodes that agree on what \<^verbatim>\<open>_hasFocusableChild\<close> of a parent reads from them.\<close>

definition same_focus :: "CRAXNode \<Rightarrow> CRAXNode \<Rightarrow> bool" where
  "same_focus a b =
     (focusable a = focusable b \<and> hasFocusableDescendant a = hasFocusableDescendant b)"

text \<open>The conditional expression that \<^verbatim>\<open>serialize\<close> stores for a tristate property.\<close>

definition tristate :: "jsval \<Rightarrow> jsval" where
  "tristate v =
     (if v = JSStr ''mixed'' then JSStr ''mixed''
      else if v = JSStr ''true'' then JSBool True else JSBool False)"

text \<open>
  The value of the payload's property called \<open>k\<close> once names are lower-cased: that of the
  last such property in the list, since a later \<^verbatim>\<open>properties.set\<close> replaces an earlier one.
\<close>

definition property_value :: "CRAXNode \<Rightarrow> string \<Rightarrow> jsval option" where
  "property_value n k =
     map_of (rev (map (\<lambda>(pname, v). (toLowerCase pname, v))
                   (case p_properties (payload n) of None \<Rightarrow> [] | Some ps \<Rightarrow> ps))) k"

section \<open>A snapshot of four records\<close>

text \<open>
  A root \<open>R\<close> of role \<^verbatim>\<open>WebArea\<close> with the children \<open>A\<close>, a focusable button, and \<open>B\<close>;
  \<open>A\<close> has the child \<open>C\<close> of role \<^verbatim>\<open>text\<close>. \<open>tree_R\<close> is the tree that \<^verbatim>\<open>createTree\<close>
  links from the four records (lemma \<open>snapshot_tree\<close> below).
\<close>

definition record_R :: AXNode where
  "record_R = \<lparr>p_nodeId = ''R'', p_role = Some (JSStr ''WebArea''),
     p_name = Some (JSStr ''Page''), p_value = None, p_description = None,
     p_properties = Some [(''focused'', JSBool True)], p_childIds = Some [''A'', ''B'']\<rparr>"

definition record_A :: AXNode where
  "record_A = \<lparr>p_nodeId = ''A'', p_role = Some (JSStr ''button''),
     p_name = Some (JSStr ''Send''), p_value = None, p_description = None,
     p_properties = Some [(''focusable'', JSBool True), (''pressed'', JSStr ''mixed'')],
     p_childIds = Some [''C'']\<rparr>"

definition record_B :: AXNode where
  "record_B = \<lparr>p_nodeId = ''B'', p_role = Some (JSStr ''generic''),
     p_name = Some (JSStr ''Box''), p_value = None, p_description = None,
     p_properties = Some [(''checked'', JSBool True)], p_childIds = None\<rparr>"

definition record_C :: AXNode where
  "record_C = \<lparr>p_nodeId = ''C'', p_role = Some (JSStr ''text''),
     p_name = Some (JSStr ''Send''), p_value = None, p_description = None,
     p_properties = None, p_childIds = None\<rparr>"

definition tree_C :: CRAXNode where
  "tree_C = new_CRAXNode record_C"

definition tree_B :: CRAXNode where
  "tree_B = new_CRAXNode record_B"

definition tree_A :: CRAXNode where
  "tree_A = set_children [tree_C] (new_CRAXNode record_A)"

definition tree_R :: CRAXNode where
  "tree_R = set_children [tree_A, tree_B] (new_CRAXNode record_R)"

text \<open>Further records: each differs from the ones above in the member a statement is about.\<close>

definition record_combobox :: AXNode where
  "record_combobox = \<lparr>p_nodeId = ''1'', p_role = Some (JSStr ''combobox''),
     p_name = Some (JSStr ''Fruit''), p_value = None, p_description = None,
     p_properties = None, p_childIds = None\<rparr>"

definition record_meter :: AXNode where
  "record_meter = \<lparr>p_nodeId = ''M'', p_role = Some (JSStr ''meter''),
     p_name = Some (JSStr ''Load''), p_value = None, p_description = None,
     p_properties = None, p_childIds = Some [''C'']\<rparr>"

definition tree_meter :: CRAXNode where
  "tree_meter = set_children [tree_C] (new_CRAXNode record_meter)"

definition record_ignored :: AXNode where
  "record_ignored = \<lparr>p_nodeId = ''I'', p_role = Some (JSStr ''ignored''),
     p_name = Some (JSStr ''Link''), p_value = None, p_description = None,
     p_properties = Some [(''focusable'', JSBool True)], p_childIds = None\<rparr>"

definition record_norole :: AXNode where
  "record_norole = \<lparr>p_nodeId = ''N'', p_role = None,
     p_name = Some (JSStr ''Title''), p_value = None, p_description = None,
     p_properties = None, p_childIds = None\<rparr>"

definition record_dangling :: AXNode where
  "record_dangling = \<lparr>p_nodeId = ''r'', p_role = Some (JSStr ''WebArea''),
     p_name = Some (JSStr ''Page''), p_value = None, p_description = None,
     p_properties = None, p_childIds = Some [''x9'']\<rparr>"

text \<open>Two records with a tristate property and without the member \<^verbatim>\<open>name\<close>.\<close>

definition record_checked_noname :: AXNode where
  "record_checked_noname = \<lparr>p_nodeId = ''K'', p_role = Some (JSStr ''checkbox''),
     p_name = None, p_value = None, p_description = None,
     p_properties = Some [(''checked'', JSStr ''mixed'')], p_childIds = None\<rparr>"

definition record_pressed_noname :: AXNode where
  "record_pressed_noname = \<lparr>p_nodeId = ''T'', p_role = Some (JSStr ''button''),
     p_name = None, p_value = None, p_description = None,
     p_properties = Some [(''pressed'', JSBool True)], p_childIds = None\<rparr>"

section \<open>The constructor and the snapshot\<close>

lemma applyProperty_fields:
  "payload (applyProperty a n) = payload n \<and>
   children (applyProperty a n) = children n \<and>
   name (applyProperty a n) = name n \<and>
   role (applyProperty a n) = role n \<and>
   cachedHasFocusableChild (applyProperty a n) = cachedHasFocusableChild n"
proof -
  obtain k v where a: "a = (k, v)" by (cases a)
  show ?thesis unfolding a by (cases n) (simp add: Let_def)
qed

lemma fold_applyProperty_fields:
  "payload (fold applyProperty ps n) = payload n \<and>
   children (fold applyProperty ps n) = children n \<and>
   name (fold applyProperty ps n) = name n \<and>
   role (fold applyProperty ps n) = role n \<and>
   cachedHasFocusableChild (fold applyProperty ps n) = cachedHasFocusableChild n"
proof (induction ps arbitrary: n)
  case Nil
  show ?case by simp
next
  case (Cons a ps)
  from Cons.IH [of "applyProperty a n"] applyProperty_fields [of a n]
  show ?case by simp
qed

lemma new_CRAXNode_fields:
  "payload (new_CRAXNode p) = p"
  "children (new_CRAXNode p) = []"
  "name (new_CRAXNode p) = (case p_name p of None \<Rightarrow> JSStr [] | Some v \<Rightarrow> v)"
  "role (new_CRAXNode p) = (case p_role p of None \<Rightarrow> JSStr ''Unknown'' | Some v \<Rightarrow> v)"
  "cachedHasFocusableChild (new_CRAXNode p) = None"
  by (simp_all add: new_CRAXNode_def fold_applyProperty_fields)

text \<open>A node fresh from the constructor has an empty cache and no children.\<close>

lemma cache_ok_new: "cache_ok (new_CRAXNode p)"
  using new_CRAXNode_fields(2,5)[of p] by (cases "new_CRAXNode p") simp

text \<open>\<^verbatim>\<open>createTree\<close> on the four records links the tree \<open>tree_R\<close>.\<close>

lemma snapshot_tree:
  "node_at 3 (fst (createTree [record_R, record_A, record_B, record_C])) ''R'' = Some tree_R"
  by code_simp

lemma snapshot_classification:
  "fst (isLeafNode tree_C) = True"
  "isTextOnlyObject tree_C = True"
  "isControl tree_A = True"
  "fst (isInteresting False tree_A) = True"
  "fst (isInteresting True tree_C) = False"
  by code_simp+

section \<open>Search\<close>

lemma find_append_case:
  "List.find P (xs @ ys) = (case List.find P xs of None \<Rightarrow> List.find P ys | Some x \<Rightarrow> Some x)"
  by (induction xs) auto

lemma find_preorder_aux:
  "find_node pr n = List.find pr (preorder n)"
  "find_children pr cs = List.find pr (concat (map preorder cs))"
  by (induction pr n and pr cs rule: find_node_find_children.induct)
     (auto simp: find_append_case split: option.splits)

text \<open>
  C9. For every tree and every predicate, \<^verbatim>\<open>find\<close> returns the first node of the
  depth-first order (a node before its children, the children from left to right) that
  satisfies the predicate, and \<^verbatim>\<open>null\<close> when no node of the tree does; the result is a
  function of the tree and the predicate.
\<close>

theorem find_first_in_preorder:
  "find_node predicate n = List.find predicate (preorder n)"
  by (rule find_preorder_aux(1))

text \<open>On the snapshot: a predicate that holds of \<open>C\<close> alone finds \<open>C\<close>, and a
  predicate that holds of no node finds nothing.\<close>

theorem find_first_in_preorder_witness:
  "find_node (\<lambda>n. p_nodeId (payload n) = ''C'') tree_R = Some tree_C \<and>
   find_node (\<lambda>n. p_nodeId (payload n) = ''Z'') tree_R = None"
  by (subst find_first_in_preorder, subst find_first_in_preorder) code_simp

section \<open>Focusable descendants\<close>

lemma hasFocusableDescendant_children:
  "hasFocusableDescendant n =
     list_ex (\<lambda>c. truthy (focusable c) \<or> hasFocusableDescendant c) (children n)"
  by (cases n) (auto simp: hasFocusableDescendant_def list_ex_iff)

text \<open>The call changes caches only, and leaves the answer in the cache of the node.\<close>

lemma hasFocusableChild_fields:
  "payload (snd (hasFocusableChild n)) = payload n"
  "richlyEditable (snd (hasFocusableChild n)) = richlyEditable n"
  "editable (snd (hasFocusableChild n)) = editable n"
  "focusable (snd (hasFocusableChild n)) = focusable n"
  "expanded (snd (hasFocusableChild n)) = expanded n"
  "hidden (snd (hasFocusableChild n)) = hidden n"
  "name (snd (hasFocusableChild n)) = name n"
  "role (snd (hasFocusableChild n)) = role n"
  "cachedHasFocusableChild (snd (hasFocusableChild n)) = Some (fst (hasFocusableChild n))"
  by (cases n; simp split: option.splits prod.splits)+

lemma hasFocusableChild_again:
  "hasFocusableChild (snd (hasFocusableChild n)) = hasFocusableChild n"
  by (cases n) (simp split: option.splits prod.splits)

lemma same_focus_self: "same_focus a a"
  by (simp add: same_focus_def)

lemma same_focus_refl: "list_all2 same_focus cs cs"
  by (simp add: list_all2_refl same_focus_self)

lemma same_focus_list_ex:
  "list_all2 same_focus xs ys \<Longrightarrow>
   list_ex (\<lambda>c. truthy (focusable c) \<or> hasFocusableDescendant c) xs =
   list_ex (\<lambda>c. truthy (focusable c) \<or> hasFocusableDescendant c) ys"
  by (induction rule: list_all2_induct) (simp_all add: same_focus_def)

lemma same_focus_node:
  "list_all2 same_focus cs' cs \<Longrightarrow>
   hasFocusableDescendant (CRAXNode p cs' re e f x h nm r ca') =
   hasFocusableDescendant (CRAXNode p cs re e f x h nm r ca)"
  using same_focus_list_ex [of cs' cs]
  by (simp add: hasFocusableDescendant_children [of "CRAXNode p cs' re e f x h nm r ca'"]
       hasFocusableDescendant_children [of "CRAXNode p cs re e f x h nm r ca"])

lemma hasFocusableChild_keeps:
  "hasFocusableDescendant (snd (hasFocusableChild n)) = hasFocusableDescendant n"
  "list_all2 same_focus (snd (hasFocusableChild_loop cs)) cs"
proof (induction n and cs rule: hasFocusableChild_hasFocusableChild_loop.induct)
  case (1 p cs re e f x h nm r ca)
  show ?case
  proof (cases ca)
    case None
    obtain found cs' where l: "hasFocusableChild_loop cs = (found, cs')"
      by (cases "hasFocusableChild_loop cs")
    from "1"[OF None] l have "list_all2 same_focus cs' cs" by simp
    from same_focus_node[OF this] None l show ?thesis by simp
  next
    case (Some b)
    then show ?thesis by simp
  qed
next
  case 2
  show ?case by simp
next
  case (3 child rest)
  show ?case
  proof (cases "truthy (focusable child)")
    case True
    then show ?thesis by (simp add: same_focus_refl same_focus_self)
  next
    case False
    obtain b child' where c: "hasFocusableChild child = (b, child')"
      by (cases "hasFocusableChild child")
    have "focusable child' = focusable child"
      using hasFocusableChild_fields(4)[of child] c by simp
    moreover have "hasFocusableDescendant child' = hasFocusableDescendant child"
      using "3.IH"(1)[OF False] c by simp
    ultimately have sf: "same_focus child' child" by (simp add: same_focus_def)
    show ?thesis
    proof (cases b)
      case True
      with False c sf show ?thesis by (simp add: same_focus_refl)
    next
      case nb: False
      obtain found rest' where l: "hasFocusableChild_loop rest = (found, rest')"
        by (cases "hasFocusableChild_loop rest")
      from "3.IH"(2)[OF False c[symmetric] refl nb] l
      have "list_all2 same_focus rest' rest" by simp
      with False c sf nb l show ?thesis by simp
    qed
  qed
qed

lemma hasFocusableChild_correct:
  "cache_ok n \<Longrightarrow>
     fst (hasFocusableChild n) = hasFocusableDescendant n \<and> cache_ok (snd (hasFocusableChild n))"
  "list_all cache_ok cs \<Longrightarrow>
     fst (hasFocusableChild_loop cs) =
       list_ex (\<lambda>c. truthy (focusable c) \<or> hasFocusableDescendant c) cs \<and>
     list_all cache_ok (snd (hasFocusableChild_loop cs))"
proof (induction n and cs rule: hasFocusableChild_hasFocusableChild_loop.induct)
  case (1 p cs re e f x h nm r ca)
  show ?case
  proof (cases ca)
    case None
    obtain found cs' where l: "hasFocusableChild_loop cs = (found, cs')"
      by (cases "hasFocusableChild_loop cs")
    from "1.prems" have "list_all cache_ok cs" by simp
    from "1.IH"[OF None this] l
    have found: "found = list_ex (\<lambda>c. truthy (focusable c) \<or> hasFocusableDescendant c) cs"
      and ok: "list_all cache_ok cs'" by simp_all
    have same: "list_all2 same_focus cs' cs"
      using hasFocusableChild_keeps(2)[of cs] l by simp
    have d: "hasFocusableDescendant (CRAXNode p cs re e f x h nm r ca) = found"
      using found hasFocusableDescendant_children [of "CRAXNode p cs re e f x h nm r ca"]
      by simp
    have d': "hasFocusableDescendant (CRAXNode p cs' re e f x h nm r (Some found)) = found"
      using same_focus_node[OF same, of p re e f x h nm r "Some found" ca] d by simp
    from None l d d' ok show ?thesis by simp
  next
    case (Some b)
    with "1.prems" show ?thesis by simp
  qed
next
  case 2
  show ?case by simp
next
  case (3 child rest)
  from "3.prems" have okc: "cache_ok child" and okr: "list_all cache_ok rest" by simp_all
  show ?case
  proof (cases "truthy (focusable child)")
    case True
    with "3.prems" show ?thesis by simp
  next
    case False
    obtain b child' where c: "hasFocusableChild child = (b, child')"
      by (cases "hasFocusableChild child")
    from "3.IH"(1)[OF False okc] c
    have b: "b = hasFocusableDescendant child" and okc': "cache_ok child'" by simp_all
    show ?thesis
    proof (cases b)
      case True
      with False c b okc' okr show ?thesis by simp
    next
      case nb: False
      obtain found rest' where l: "hasFocusableChild_loop rest = (found, rest')"
        by (cases "hasFocusableChild_loop rest")
      from "3.IH"(2)[OF False c[symmetric] refl nb okr] l
      have "found = list_ex (\<lambda>c. truthy (focusable c) \<or> hasFocusableDescendant c) rest"
        and "list_all cache_ok rest'" by simp_all
      with False c b okc' nb l show ?thesis by simp
    qed
  qed
qed

text \<open>
  C5. For every node whose caches are in a state the program can reach,
  \<^verbatim>\<open>_hasFocusableChild\<close> returns true exactly when some transitive descendant of the node
  is focusable; a second call on the node returns the same value; and the caches stay in
  such a state.
\<close>

theorem hasFocusableChild_iff_descendant:
  assumes "cache_ok n"
  shows "fst (hasFocusableChild n) = (\<exists>d \<in> set (descendants n). truthy (focusable d)) \<and>
         fst (hasFocusableChild (snd (hasFocusableChild n))) = fst (hasFocusableChild n) \<and>
         cache_ok (snd (hasFocusableChild n))"
  using hasFocusableChild_correct(1)[OF assms] hasFocusableChild_again[of n]
  by (simp add: hasFocusableDescendant_def list_ex_iff)

text \<open>On the snapshot: the root has the focusable descendant \<open>A\<close>, the button \<open>A\<close> has none.\<close>

theorem hasFocusableChild_iff_descendant_witness:
  "cache_ok tree_R \<and> fst (hasFocusableChild tree_R) = True \<and>
   fst (hasFocusableChild (snd (hasFocusableChild tree_R))) = True"
proof -
  have h: "cache_ok tree_R" by code_simp
  have e: "(\<exists>d \<in> set (descendants tree_R). truthy (focusable d)) = True" by code_simp
  from hasFocusableChild_iff_descendant [OF h] e h show ?thesis by simp
qed


section \<open>Classification\<close>

text \<open>
  C3 as stated fails: a node of role \<^verbatim>\<open>combobox\<close> that is neither editable nor richly
  editable is not a plain text field, since the code compares the role with \<^verbatim>\<open>ComboBox\<close>.
\<close>

theorem isPlainTextField_combobox_counterexample:
  "role (new_CRAXNode record_combobox) = JSStr ''combobox'' \<and>
   \<not> richlyEditable (new_CRAXNode record_combobox) \<and>
   \<not> editable (new_CRAXNode record_combobox) \<and>
   isPlainTextField (new_CRAXNode record_combobox) = False"
  by code_simp

text \<open>
  C3, amended. For every node, \<^verbatim>\<open>_isPlainTextField\<close> is false if the node is richly
  editable; otherwise true if it is editable; otherwise true exactly when its role is one
  of the strings \<^verbatim>\<open>textbox\<close>, \<^verbatim>\<open>ComboBox\<close> and \<^verbatim>\<open>searchbox\<close>, compared with their case.
\<close>

theorem isPlainTextField_rule:
  "isPlainTextField n =
     (if richlyEditable n then False
      else if editable n then True
      else role n \<in> {JSStr ''textbox'', JSStr ''ComboBox'', JSStr ''searchbox''})"
  by (simp add: isPlainTextField_def)

theorem isPlainTextField_rule_witness:
  "isPlainTextField tree_C = False"
  by (subst isPlainTextField_rule) code_simp

text \<open>
  C4 as stated fails: a node of role \<^verbatim>\<open>meter\<close> with a child, no focusable flag and no
  text role is not a leaf, since the code compares the role with \<^verbatim>\<open>Meter\<close>.
\<close>

theorem isLeafNode_meter_counterexample:
  "role tree_meter = JSStr ''meter'' \<and> children tree_meter \<noteq> [] \<and>
   \<not> isPlainTextField tree_meter \<and> \<not> isTextOnlyObject tree_meter \<and>
   fst (isLeafNode tree_meter) = False"
  by code_simp

text \<open>
  C4, amended. For every node, \<^verbatim>\<open>isLeafNode\<close> is true if the node has no children; else
  true if \<^verbatim>\<open>_isPlainTextField\<close> or \<^verbatim>\<open>_isTextOnlyObject\<close> holds; else true if its role is
  one of the strings \<^verbatim>\<open>doc-cover\<close>, \<^verbatim>\<open>graphics-symbol\<close>, \<^verbatim>\<open>img\<close>, \<^verbatim>\<open>Meter\<close>, \<^verbatim>\<open>scrollbar\<close>,
  \<^verbatim>\<open>slider\<close>, \<^verbatim>\<open>separator\<close> and \<^verbatim>\<open>progressbar\<close>, compared with their case; else false if
  \<^verbatim>\<open>_hasFocusableChild\<close> holds; else true if the node is focusable with a non-empty name;
  else true if its role is \<^verbatim>\<open>heading\<close> with a non-empty name; otherwise false.
\<close>

theorem isLeafNode_rule:
  "fst (isLeafNode n) =
     (if children n = [] then True
      else if isPlainTextField n \<or> isTextOnlyObject n then True
      else if role n \<in> {JSStr ''doc-cover'', JSStr ''graphics-symbol'', JSStr ''img'',
                JSStr ''Meter'', JSStr ''scrollbar'', JSStr ''slider'', JSStr ''separator'',
                JSStr ''progressbar''} then True
      else if fst (hasFocusableChild n) then False
      else if truthy (focusable n) \<and> truthy (name n) then True
      else if role n = JSStr ''heading'' \<and> truthy (name n) then True
      else False)"
proof -
  obtain b n' where h: "hasFocusableChild n = (b, n')"
    by (cases "hasFocusableChild n")
  have "focusable n' = focusable n" "name n' = name n" "role n' = role n"
    using hasFocusableChild_fields(4,7,8)[of n] h by simp_all
  with h show ?thesis
    by (simp add: isLeafNode_def)
qed

text \<open>On the snapshot: the button \<open>A\<close> has a child, no focusable child, and is focusable
  with a name.\<close>

theorem isLeafNode_rule_witness:
  "fst (isLeafNode tree_A) = True"
  by (subst isLeafNode_rule) code_simp

lemma isLeafNode_name: "name (snd (isLeafNode n)) = name n"
proof -
  obtain b n' where h: "hasFocusableChild n = (b, n')"
    by (cases "hasFocusableChild n")
  have "name n' = name n"
    using hasFocusableChild_fields(7)[of n] h by simp
  with h show ?thesis
    by (simp add: isLeafNode_def)
qed

text \<open>
  C6 as stated fails: a focusable node of role \<^verbatim>\<open>ignored\<close> is interesting, since the code
  compares the role with \<^verbatim>\<open>Ignored\<close>.
\<close>

theorem isInteresting_ignored_counterexample:
  "role (new_CRAXNode record_ignored) = JSStr ''ignored'' \<and>
   fst (isInteresting False (new_CRAXNode record_ignored)) = True \<and>
   fst (isInteresting True (new_CRAXNode record_ignored)) = True"
  by code_simp

text \<open>
  C6, amended. For every node and every boolean \<open>insideControl\<close>, \<^verbatim>\<open>isInteresting\<close> is
  false if the node's role is the string \<^verbatim>\<open>Ignored\<close>, compared with its case, or the node
  is hidden; else true if the node is focusable or richly editable; else true if
  \<^verbatim>\<open>isControl\<close> holds; else false if \<open>insideControl\<close> is true; otherwise true exactly when
  \<^verbatim>\<open>isLeafNode\<close> holds and the name is non-empty.
\<close>

theorem isInteresting_rule:
  "fst (isInteresting insideControl n) =
     (if role n = JSStr ''Ignored'' \<or> truthy (hidden n) then False
      else if truthy (focusable n) \<or> richlyEditable n then True
      else if isControl n then True
      else if insideControl then False
      else fst (isLeafNode n) \<and> truthy (name n))"
proof -
  obtain leaf n' where l: "isLeafNode n = (leaf, n')"
    by (cases "isLeafNode n")
  have "name n' = name n"
    using isLeafNode_name [of n] l by simp
  with l show ?thesis
    by (simp add: isInteresting_def Let_def)
qed

text \<open>On the snapshot: the text \<open>C\<close> is interesting on its own and not inside a control.\<close>

theorem isInteresting_rule_witness:
  "fst (isInteresting False tree_C) = True \<and> fst (isInteresting True tree_C) = False"
  by (subst isInteresting_rule, subst isInteresting_rule) code_simp

section \<open>Serialization\<close>

subsection \<open>What a lookup in the output finds\<close>

lemma fold_update_lookup:
  "map_of (fold (\<lambda>(pname, v). AList.update (f pname) v) ps acc) k =
     (case map_of (rev (map (\<lambda>(pname, v). (f pname, v)) ps)) k of
        None \<Rightarrow> map_of acc k
      | Some v \<Rightarrow> Some v)"
proof (induction ps arbitrary: acc)
  case Nil
  show ?case by simp
next
  case (Cons a ps)
  obtain pname v where a: "a = (pname, v)" by (cases a)
  show ?case
    unfolding a
    by (simp add: Cons.IH update_conv' map_add_def split: option.splits)
qed

lemma serialize_properties_lookup:
  assumes "k \<noteq> ''name''" "k \<noteq> ''value''" "k \<noteq> ''description''"
  shows "map_of (serialize_properties n) k = property_value n k"
  using assms
  by (simp add: serialize_properties_def property_value_def Let_def update_conv'
        fold_update_lookup split: option.splits)

lemma fold_step_lookup:
  assumes step: "\<And>k acc k'. map_of (step k acc) k' =
                   (if k' = k \<and> c k then Some (w k) else map_of acc k')"
  shows "map_of (fold step ks acc) k' =
           (if k' \<in> set ks \<and> c k' then Some (w k') else map_of acc k')"
  by (induction ks arbitrary: acc) (auto simp: step)

lemma userStringStep_lookup:
  "map_of (userStringStep properties k acc) k' =
     (if k' = k \<and> Map_has properties k then Some (Map_get properties k) else map_of acc k')"
  by (simp add: userStringStep_def update_conv')

lemma booleanStep_lookup:
  "map_of (booleanStep r properties k acc) k' =
     (if k' = k \<and> (\<not> (k = ''focused'' \<and> r = JSStr ''WebArea'') \<and> truthy (Map_get properties k))
      then Some (Map_get properties k) else map_of acc k')"
  by (auto simp: booleanStep_def update_conv' Let_def)

lemma tristateStep_lookup:
  "map_of (tristateStep properties k acc) k' =
     (if k' = k \<and> Map_has properties k then Some (tristate (Map_get properties k))
      else map_of acc k')"
  by (simp add: tristateStep_def update_conv' Let_def tristate_def)

lemma numericalStep_lookup:
  "map_of (numericalStep properties k acc) k' =
     (if k' = k \<and> Map_has properties k then Some (Map_get properties k) else map_of acc k')"
  by (simp add: numericalStep_def update_conv')

lemma tokenStep_lookup:
  "map_of (tokenStep properties k acc) k' =
     (if k' = k \<and> (truthy (Map_get properties k) \<and> Map_get properties k \<noteq> JSStr ''false'')
      then Some (Map_get properties k) else map_of acc k')"
  by (simp add: tokenStep_def update_conv' Let_def)

text \<open>\<^verbatim>\<open>serialize\<close> returns a record exactly when the payload has the member \<^verbatim>\<open>name\<close>.\<close>

lemma serialize_returns:
  "p_name (payload n) = Some v \<Longrightarrow> \<exists>out. serialize n = Inr out"
  by (simp add: serialize_def Let_def)

lemma serialize_throws:
  "p_name (payload n) = None \<Longrightarrow> serialize n = Inl TypeError"
  by (simp add: serialize_def Let_def)

lemma serialize_Inr_name:
  "serialize n = Inr out \<Longrightarrow> \<exists>v. p_name (payload n) = Some v"
  by (cases "p_name (payload n)") (simp_all add: serialize_throws)

lemma serialize_lookup:
  assumes "serialize n = Inr out" and nm: "p_name (payload n) = Some v"
  shows "map_of out k =
    (if k \<in> set tokenProperties \<and>
        (truthy (Map_get (serialize_properties n) k) \<and>
         Map_get (serialize_properties n) k \<noteq> JSStr ''false'')
     then Some (Map_get (serialize_properties n) k)
     else if k \<in> set numericalProperties \<and> Map_has (serialize_properties n) k
     then Some (Map_get (serialize_properties n) k)
     else if k \<in> set tristateProperties \<and> Map_has (serialize_properties n) k
     then Some (tristate (Map_get (serialize_properties n) k))
     else if k \<in> set booleanProperties \<and>
        (\<not> (k = ''focused'' \<and> role n = JSStr ''WebArea'') \<and>
         truthy (Map_get (serialize_properties n) k))
     then Some (Map_get (serialize_properties n) k)
     else if k \<in> set userStringProperties \<and> Map_has (serialize_properties n) k
     then Some (Map_get (serialize_properties n) k)
     else map_of [(''role'', role n), (''name'', if truthy v then v else JSStr [])] k)"
proof -
  from assms have out: "out =
     fold (tokenStep (serialize_properties n)) tokenProperties
      (fold (numericalStep (serialize_properties n)) numericalProperties
        (fold (tristateStep (serialize_properties n)) tristateProperties
          (fold (booleanStep (role n) (serialize_properties n)) booleanProperties
            (fold (userStringStep (serialize_properties n)) userStringProperties
              [(''role'', role n), (''name'', if truthy v then v else JSStr [])]))))"
    by (simp add: serialize_def Let_def)
  show ?thesis
    unfolding out
      fold_step_lookup [of "tokenStep (serialize_properties n)", OF tokenStep_lookup]
      fold_step_lookup [of "numericalStep (serialize_properties n)", OF numericalStep_lookup]
      fold_step_lookup [of "tristateStep (serialize_properties n)", OF tristateStep_lookup]
      fold_step_lookup [of "booleanStep (role n) (serialize_properties n)", OF booleanStep_lookup]
      fold_step_lookup [of "userStringStep (serialize_properties n)", OF userStringStep_lookup]
    by (rule refl)
qed

lemma role_name_lists:
  "''role'' \<notin> set tokenProperties" "''role'' \<notin> set numericalProperties"
  "''role'' \<notin> set tristateProperties" "''role'' \<notin> set userStringProperties"
  "''role'' \<notin> set booleanProperties"
  "''name'' \<notin> set tokenProperties" "''name'' \<notin> set numericalProperties"
  "''name'' \<notin> set tristateProperties" "''name'' \<notin> set userStringProperties"
  "''name'' \<notin> set booleanProperties"
  by (simp_all add: tokenProperties_def numericalProperties_def tristateProperties_def
        userStringProperties_def booleanProperties_def)

lemma focused_lists:
  "''focused'' \<notin> set tokenProperties" "''focused'' \<notin> set numericalProperties"
  "''focused'' \<notin> set tristateProperties" "''focused'' \<notin> set userStringProperties"
  by (simp_all add: tokenProperties_def numericalProperties_def tristateProperties_def
        userStringProperties_def)

lemma tristate_lists:
  assumes "k = ''checked'' \<or> k = ''pressed''"
  shows "k \<notin> set tokenProperties" "k \<notin> set numericalProperties"
    "k \<in> set tristateProperties" "k \<notin> set userStringProperties" "k \<notin> set booleanProperties"
    "k \<noteq> ''name''" "k \<noteq> ''value''" "k \<noteq> ''description''" "k \<noteq> ''role''"
  using assms
  by (auto simp: tokenProperties_def numericalProperties_def tristateProperties_def
        userStringProperties_def booleanProperties_def)

lemma serialize_tristate_lookup:
  assumes k: "k = ''checked'' \<or> k = ''pressed''" and out: "serialize n = Inr out"
  shows "map_of out k = map_option tristate (property_value n k)"
proof -
  from out obtain v where "p_name (payload n) = Some v"
    using serialize_Inr_name by blast
  from serialize_lookup [OF out this, of k]
  have "map_of out k =
          (if Map_has (serialize_properties n) k
           then Some (tristate (Map_get (serialize_properties n) k)) else None)"
    using k by (auto simp add: tristate_lists)
  also have "\<dots> = map_option tristate (map_of (serialize_properties n) k)"
    by (simp add: Map_has_def Map_get_def split: option.splits)
  finally show ?thesis
    by (simp add: serialize_properties_lookup tristate_lists(6-8)[OF k])
qed

subsection \<open>Role and name\<close>

text \<open>
  C1 as stated fails: for a payload without the member \<^verbatim>\<open>role\<close> the output has the role
  \<^verbatim>\<open>Unknown\<close>, with a capital letter, and not \<^verbatim>\<open>unknown\<close>.
\<close>

theorem serialize_default_role_counterexample:
  "p_role record_norole = None \<and>
   serialize (new_CRAXNode record_norole) =
     Inr [(''role'', JSStr ''Unknown''), (''name'', JSStr ''Title'')] \<and>
   JSStr ''Unknown'' \<noteq> JSStr ''unknown''"
  by code_simp

text \<open>
  C1, amended. For every node whose payload has the member \<^verbatim>\<open>name\<close>, \<^verbatim>\<open>serialize\<close>
  returns an output record that contains both \<^verbatim>\<open>role\<close> and \<^verbatim>\<open>name\<close>: the role is the
  node's role, which the constructor takes from the payload and sets to \<^verbatim>\<open>Unknown\<close> when
  the payload has no member \<^verbatim>\<open>role\<close>; the name is the value of the payload's name, or the
  empty string when that value is falsy.
\<close>

theorem serialize_role_and_name:
  "(p_name (payload n) = Some v \<longrightarrow>
      (\<exists>out. serialize n = Inr out \<and>
             map_of out ''role'' = Some (role n) \<and>
             map_of out ''name'' = Some (if truthy v then v else JSStr ''''))) \<and>
   role (new_CRAXNode p) = (case p_role p of None \<Rightarrow> JSStr ''Unknown'' | Some r \<Rightarrow> r) \<and>
   payload (new_CRAXNode p) = p"
proof (intro conjI impI)
  assume nm: "p_name (payload n) = Some v"
  then obtain out where out: "serialize n = Inr out"
    using serialize_returns by blast
  have "map_of out ''role'' = Some (role n)"
    using serialize_lookup [OF out nm, of "''role''"] by (simp add: role_name_lists)
  moreover have "map_of out ''name'' = Some (if truthy v then v else JSStr '''')"
    using serialize_lookup [OF out nm, of "''name''"] by (simp add: role_name_lists)
  ultimately show "\<exists>out. serialize n = Inr out \<and>
             map_of out ''role'' = Some (role n) \<and>
             map_of out ''name'' = Some (if truthy v then v else JSStr '''')"
    using out by blast
qed (simp_all add: new_CRAXNode_fields)

text \<open>On the snapshot: the button \<open>A\<close>.\<close>

theorem serialize_role_and_name_witness:
  "p_name (payload tree_A) = Some (JSStr ''Send'') \<and>
   (\<exists>out. serialize tree_A = Inr out \<and>
          map_of out ''role'' = Some (JSStr ''button'') \<and>
          map_of out ''name'' = Some (JSStr ''Send''))"
proof -
  have nm: "p_name (payload tree_A) = Some (JSStr ''Send'')" by code_simp
  have r: "role tree_A = JSStr ''button''" by code_simp
  from serialize_role_and_name [of tree_A "JSStr ''Send''" record_A] nm r
  show ?thesis by simp
qed

subsection \<open>The focused field of a WebArea\<close>

text \<open>
  C7. For every node whose role is \<^verbatim>\<open>WebArea\<close>, a record that \<^verbatim>\<open>serialize\<close> returns never
  has the field \<^verbatim>\<open>focused\<close>, whatever the payload's properties hold.
\<close>

theorem webarea_never_focused:
  assumes "role n = JSStr ''WebArea''" and "serialize n = Inr out"
  shows "map_of out ''focused'' = None \<and> ''focused'' \<notin> fst ` set out"
proof -
  from assms(2) obtain v where "p_name (payload n) = Some v"
    using serialize_Inr_name by blast
  from serialize_lookup [OF assms(2) this, of "''focused''"] assms(1)
  have "map_of out ''focused'' = None" by (simp add: focused_lists)
  then show ?thesis by (simp add: map_of_eq_None_iff)
qed

text \<open>On the snapshot: the root has the property \<^verbatim>\<open>focused\<close> with the value true.\<close>

theorem webarea_never_focused_witness:
  "role tree_R = JSStr ''WebArea'' \<and>
   property_value tree_R ''focused'' = Some (JSBool True) \<and>
   serialize tree_R = Inr [(''role'', JSStr ''WebArea''), (''name'', JSStr ''Page'')] \<and>
   map_of [(''role'', JSStr ''WebArea''), (''name'', JSStr ''Page'')] ''focused'' = None"
proof -
  have r: "role tree_R = JSStr ''WebArea''" by code_simp
  have p: "property_value tree_R ''focused'' = Some (JSBool True)" by code_simp
  have s: "serialize tree_R = Inr [(''role'', JSStr ''WebArea''), (''name'', JSStr ''Page'')]"
    by code_simp
  from webarea_never_focused [OF r s] r p s show ?thesis by simp
qed

subsection \<open>Tristate fields\<close>

text \<open>
  When the payload has the member \<^verbatim>\<open>name\<close>, \<^verbatim>\<open>serialize\<close> returns a record, and for a
  property \<^verbatim>\<open>checked\<close> or \<^verbatim>\<open>pressed\<close> the record has that field: the string \<^verbatim>\<open>mixed\<close>
  for the value \<^verbatim>\<open>"mixed"\<close>, the boolean true for the value \<^verbatim>\<open>"true"\<close>, and the
  boolean false for any other value; without the property the field is absent.
\<close>

lemma tristate_mapping_with_name:
  assumes "k = ''checked'' \<or> k = ''pressed''" and "p_name (payload n) = Some nm"
  shows "\<exists>out. serialize n = Inr out \<and>
           map_of out k =
             (case property_value n k of
                None \<Rightarrow> None
              | Some v \<Rightarrow>
                  Some (if v = JSStr ''mixed'' then JSStr ''mixed''
                        else if v = JSStr ''true'' then JSBool True
                        else JSBool False))"
proof -
  from assms(2) obtain out where out: "serialize n = Inr out"
    using serialize_returns by blast
  from serialize_tristate_lookup [OF assms(1) out]
  have "map_of out k =
             (case property_value n k of
                None \<Rightarrow> None
              | Some v \<Rightarrow>
                  Some (if v = JSStr ''mixed'' then JSStr ''mixed''
                        else if v = JSStr ''true'' then JSBool True
                        else JSBool False))"
    by (simp add: tristate_def split: option.splits)
  with out show ?thesis by blast
qed

text \<open>On the snapshot: the button \<open>A\<close> is pressed \<^verbatim>\<open>"mixed"\<close> and has no property \<^verbatim>\<open>checked\<close>.\<close>

lemma tristate_mapping_with_name_example:
  "p_name (payload tree_A) = Some (JSStr ''Send'') \<and>
   property_value tree_A ''pressed'' = Some (JSStr ''mixed'') \<and>
   (\<exists>out. serialize tree_A = Inr out \<and> map_of out ''pressed'' = Some (JSStr ''mixed''))"
proof -
  have k: "''pressed'' = ''checked'' \<or> ''pressed'' = ''pressed''" by simp
  have nm: "p_name (payload tree_A) = Some (JSStr ''Send'')" by code_simp
  have p: "property_value tree_A ''pressed'' = Some (JSStr ''mixed'')" by code_simp
  from tristate_mapping_with_name [OF k nm] nm p show ?thesis by simp
qed

text \<open>
  In the same case a property \<^verbatim>\<open>checked\<close> or \<^verbatim>\<open>pressed\<close> whose value is the boolean
  true, and not the string \<^verbatim>\<open>"true"\<close>, gives the field with the boolean value false.
\<close>

lemma boolean_true_with_name:
  assumes "k = ''checked'' \<or> k = ''pressed''"
    and "property_value n k = Some (JSBool True)"
    and "p_name (payload n) = Some nm"
  shows "\<exists>out. serialize n = Inr out \<and> map_of out k = Some (JSBool False)"
proof -
  from assms(3) obtain out where out: "serialize n = Inr out"
    using serialize_returns by blast
  from serialize_tristate_lookup [OF assms(1) out] assms(2)
  have "map_of out k = Some (JSBool False)"
    by (simp add: tristate_def)
  with out show ?thesis by blast
qed

text \<open>On the snapshot: \<open>B\<close> has the property \<^verbatim>\<open>checked\<close> with the boolean value true.\<close>

lemma boolean_true_with_name_example:
  "property_value tree_B ''checked'' = Some (JSBool True) \<and>
   p_name (payload tree_B) = Some (JSStr ''Box'') \<and>
   serialize tree_B =
     Inr [(''role'', JSStr ''generic''), (''name'', JSStr ''Box''), (''checked'', JSBool False)]"
proof -
  have k: "''checked'' = ''checked'' \<or> ''checked'' = ''pressed''" by simp
  have p: "property_value tree_B ''checked'' = Some (JSBool True)" by code_simp
  have nm: "p_name (payload tree_B) = Some (JSStr ''Box'')" by code_simp
  have s: "serialize tree_B =
     Inr [(''role'', JSStr ''generic''), (''name'', JSStr ''Box''), (''checked'', JSBool False)]"
    by code_simp
  from boolean_true_with_name [OF k p nm] p nm s show ?thesis by simp
qed

text \<open>
  C8. The claim is that for every node with a property \<^verbatim>\<open>checked\<close> or \<^verbatim>\<open>pressed\<close> the
  output of \<^verbatim>\<open>serialize\<close> has that field, with \<^verbatim>\<open>"mixed"\<close> kept as the string
  \<^verbatim>\<open>mixed\<close>. The code does not do so for a node whose payload has no member \<^verbatim>\<open>name\<close>:
  the node of the record below has the property \<^verbatim>\<open>checked\<close> with the value \<^verbatim>\<open>"mixed"\<close>,
  and \<^verbatim>\<open>serialize\<close> throws a \<^verbatim>\<open>TypeError\<close> at the read of
  \<^verbatim>\<open>this._payload.name.value\<close>, before the loop over the tristate properties, so there is
  no output and no field.
\<close>

theorem tristate_mixed_without_name_throws:
  "p_name (payload (new_CRAXNode record_checked_noname)) = None \<and>
   property_value (new_CRAXNode record_checked_noname) ''checked'' = Some (JSStr ''mixed'') \<and>
   serialize (new_CRAXNode record_checked_noname) = Inl TypeError"
  by code_simp

text \<open>
  C10. The claim is that for every node with a property \<^verbatim>\<open>checked\<close> or \<^verbatim>\<open>pressed\<close>
  whose value is the boolean true the output of \<^verbatim>\<open>serialize\<close> has that field with the
  boolean value false. The code does not do so for a node whose payload has no member
  \<^verbatim>\<open>name\<close>: the node of the record below has the property \<^verbatim>\<open>pressed\<close> with the boolean
  value true, and \<^verbatim>\<open>serialize\<close> throws a \<^verbatim>\<open>TypeError\<close> at the read of
  \<^verbatim>\<open>this._payload.name.value\<close>, so there is no output and no field.
\<close>

theorem tristate_true_without_name_throws:
  "p_name (payload (new_CRAXNode record_pressed_noname)) = None \<and>
   property_value (new_CRAXNode record_pressed_noname) ''pressed'' = Some (JSBool True) \<and>
   serialize (new_CRAXNode record_pressed_noname) = Inl TypeError"
  by code_simp

section \<open>Tree construction\<close>

lemma nodeById_loop_keys:
  "fst ` set (nodeById_loop ps acc) = p_nodeId ` set ps \<union> fst ` set acc"
  unfolding nodeById_loop_def
  by (induction ps arbitrary: acc) (auto simp: dom_update)

lemma update_head:
  "al \<noteq> [] \<Longrightarrow> AList.update k v al \<noteq> [] \<and> fst (hd (AList.update k v al)) = fst (hd al)"
  by (cases al) auto

lemma nodeById_loop_head:
  "acc \<noteq> [] \<Longrightarrow> nodeById_loop ps acc \<noteq> [] \<and> fst (hd (nodeById_loop ps acc)) = fst (hd acc)"
  unfolding nodeById_loop_def
proof (induction ps arbitrary: acc)
  case Nil
  then show ?case by simp
next
  case (Cons p ps)
  from update_head [OF Cons.prems, of "p_nodeId p" "new_CRAXNode p"]
       Cons.IH [of "AList.update (p_nodeId p) (new_CRAXNode p) acc"]
  show ?case by simp
qed

lemma nodeById_loop_values:
  "map_of (nodeById_loop ps acc) k = Some nd \<Longrightarrow>
     (\<exists>p \<in> set ps. p_nodeId p = k \<and> nd = new_CRAXNode p) \<or> map_of acc k = Some nd"
  unfolding nodeById_loop_def
proof (induction ps arbitrary: acc)
  case Nil
  then show ?case by simp
next
  case (Cons p ps)
  from Cons.IH [of "AList.update (p_nodeId p) (new_CRAXNode p) acc"] Cons.prems
  show ?case by (auto simp: update_conv' split: if_splits)
qed

text \<open>
  Every tree read off the result of \<^verbatim>\<open>createTree\<close> has its caches in a reachable state:
  the constructor leaves each cache \<^verbatim>\<open>undefined\<close>.
\<close>

lemma those_Some_all:
  "those xs = Some ys \<Longrightarrow> list_all2 (\<lambda>x y. x = Some y) xs ys"
  by (induction xs arbitrary: ys) (auto split: option.splits)

lemma createTree_obj_new:
  assumes "map_of (fst (createTree ps)) k = Some ob"
  shows "\<exists>p. obj ob = new_CRAXNode p"
proof -
  from assms obtain nd where nd: "map_of (nodeById_loop ps []) k = Some nd" and "obj ob = nd"
    by (auto simp: createTree_def Let_def map_of_map)
  with nodeById_loop_values [OF nd] show ?thesis by auto
qed

lemma cache_ok_set_children:
  "cachedHasFocusableChild n = None \<Longrightarrow> cache_ok (set_children cs n) = list_all cache_ok cs"
  by (cases n) simp

lemma node_at_cache_ok:
  assumes heap: "\<And>k ob. map_of heap k = Some ob \<Longrightarrow> cachedHasFocusableChild (obj ob) = None"
  shows "node_at fuel heap r = Some t \<Longrightarrow> cache_ok t"
proof (induction fuel arbitrary: r t)
  case 0
  then show ?case by simp
next
  case (Suc fuel)
  from Suc.prems obtain ob cs where ob: "map_of heap r = Some ob"
    and cs: "those (map (\<lambda>c. case c of None \<Rightarrow> None | Some r' \<Rightarrow> node_at fuel heap r')
                      (children_refs ob)) = Some cs"
    and t: "t = set_children cs (obj ob)"
    by (auto split: option.splits)
  from those_Some_all [OF cs]
  have "list_all2 (\<lambda>c y. (case c of None \<Rightarrow> None | Some r' \<Rightarrow> node_at fuel heap r') = Some y)
          (children_refs ob) cs"
    by (simp add: list_all2_map1)
  then have "list_all cache_ok cs"
  proof (induction rule: list_all2_induct)
    case Nil
    show ?case by simp
  next
    case (Cons c cs' y ys)
    from Cons(1) obtain r' where "node_at fuel heap r' = Some y"
      by (cases c) auto
    with Suc.IH Cons show ?case by simp
  qed
  with heap [OF ob] t show ?case by (simp add: cache_ok_set_children)
qed

lemma createTree_cache_ok:
  "node_at fuel (fst (createTree ps)) r = Some t \<Longrightarrow> cache_ok t"
proof (rule node_at_cache_ok)
  fix k ob
  assume "map_of (fst (createTree ps)) k = Some ob"
  from createTree_obj_new [OF this] show "cachedHasFocusableChild (obj ob) = None"
    by (auto simp: new_CRAXNode_fields)
qed

text \<open>
  C2 as stated fails: for a record whose child id \<^verbatim>\<open>x9\<close> has no record, \<^verbatim>\<open>createTree\<close>
  returns the root with \<^verbatim>\<open>undefined\<close> as its child, and for no records it returns
  \<^verbatim>\<open>undefined\<close>; neither call fails.
\<close>

theorem createTree_dangling_counterexample:
  "createTree [record_dangling] =
     ([(''r'', \<lparr>obj = new_CRAXNode record_dangling, children_refs = [None]\<rparr>)], Some ''r'') \<and>
   createTree [] = ([], None)"
  by code_simp

text \<open>
  C2, amended. Tree construction has no failure: for an empty sequence of records it
  returns \<^verbatim>\<open>undefined\<close>; otherwise it returns the node registered under the id of the
  first record. The ids with a node are the ids of the records, each node is constructed
  from a record of its id, and its array of children holds, for each child id of its
  payload in order, the node registered under that id, or \<^verbatim>\<open>undefined\<close> when no record
  has that id.
\<close>

theorem createTree_never_fails:
  "snd (createTree ps) = (case ps of [] \<Rightarrow> None | p # _ \<Rightarrow> Some (p_nodeId p)) \<and>
   fst ` set (fst (createTree ps)) = p_nodeId ` set ps \<and>
   (\<forall>k ob. map_of (fst (createTree ps)) k = Some ob \<longrightarrow>
      (\<exists>p \<in> set ps. p_nodeId p = k \<and> obj ob = new_CRAXNode p) \<and>
      children_refs ob =
        map (\<lambda>childId. if childId \<in> p_nodeId ` set ps then Some childId else None)
          (case p_childIds (payload (obj ob)) of None \<Rightarrow> [] | Some ids \<Rightarrow> ids))"
proof -
  define refs where "refs nd =
      map (\<lambda>childId. if map_of (nodeById_loop ps []) childId = None then None else Some childId)
        (case p_childIds (payload nd) of None \<Rightarrow> [] | Some ids \<Rightarrow> ids)" for nd
  define linked where
    "linked = map (\<lambda>(k, nd). (k, \<lparr>obj = nd, children_refs = refs nd\<rparr>)) (nodeById_loop ps [])"
  have ct: "createTree ps = (linked, case linked of [] \<Rightarrow> None | (k, _) # _ \<Rightarrow> Some k)"
    by (simp add: createTree_def linked_def refs_def Let_def)
  have keys: "fst ` set (nodeById_loop ps []) = p_nodeId ` set ps"
    by (simp add: nodeById_loop_keys)
  have keys': "map fst linked = map fst (nodeById_loop ps [])"
    by (simp add: linked_def case_prod_beta)
  have refs': "refs nd =
      map (\<lambda>childId. if childId \<in> p_nodeId ` set ps then Some childId else None)
        (case p_childIds (payload nd) of None \<Rightarrow> [] | Some ids \<Rightarrow> ids)" for nd
    unfolding refs_def by (simp add: map_of_eq_None_iff keys)
  have root: "(case linked of [] \<Rightarrow> None | (k, _) # _ \<Rightarrow> Some k) =
        (case ps of [] \<Rightarrow> None | p # _ \<Rightarrow> Some (p_nodeId p))"
  proof (cases ps)
    case Nil
    then show ?thesis by (simp add: linked_def nodeById_loop_def)
  next
    case (Cons p ps')
    have "nodeById_loop ps [] = nodeById_loop ps' [(p_nodeId p, new_CRAXNode p)]"
      by (simp add: Cons nodeById_loop_def)
    with nodeById_loop_head [of "[(p_nodeId p, new_CRAXNode p)]" ps']
    have "nodeById_loop ps [] \<noteq> []" "fst (hd (nodeById_loop ps [])) = p_nodeId p" by simp_all
    then have "linked \<noteq> []" "fst (hd linked) = p_nodeId p"
      by (auto simp: linked_def hd_map case_prod_beta)
    then show ?thesis using Cons by (cases linked) auto
  qed
  have look: "map_of linked k = map_option (\<lambda>nd. \<lparr>obj = nd, children_refs = refs nd\<rparr>)
                                  (map_of (nodeById_loop ps []) k)" for k
    unfolding linked_def by (simp add: map_of_map)
  have objs: "(\<exists>p \<in> set ps. p_nodeId p = k \<and> obj ob = new_CRAXNode p) \<and>
      children_refs ob = refs (obj ob)" if "map_of linked k = Some ob" for k ob
  proof -
    from that look [of k] obtain nd where nd: "map_of (nodeById_loop ps []) k = Some nd"
      and ob: "ob = \<lparr>obj = nd, children_refs = refs nd\<rparr>" by auto
    from nodeById_loop_values [OF nd] ob show ?thesis by auto
  qed
  have "fst ` set linked = p_nodeId ` set ps"
    using keys keys' by (metis set_map)
  with root objs refs' show ?thesis
    unfolding ct by (simp del: set_map)
qed

text \<open>On the record \<open>A\<close> alone, whose child \<open>C\<close> then has no record.\<close>

theorem createTree_never_fails_witness:
  "map_of (fst (createTree [record_A])) ''A'' =
     Some \<lparr>obj = new_CRAXNode record_A, children_refs = [None]\<rparr> \<and>
   snd (createTree [record_A]) = Some ''A'' \<and>
   children_refs \<lparr>obj = new_CRAXNode record_A, children_refs = [None]\<rparr> =
     map (\<lambda>childId. if childId \<in> p_nodeId ` set [record_A] then Some childId else None)
       (case p_childIds (payload (obj \<lparr>obj = new_CRAXNode record_A, children_refs = [None]\<rparr>))
        of None \<Rightarrow> [] | Some ids \<Rightarrow> ids)"
proof -
  have m: "map_of (fst (createTree [record_A])) ''A'' =
     Some \<lparr>obj = new_CRAXNode record_A, children_refs = [None]\<rparr>" by code_simp
  have i: "p_nodeId record_A = ''A''" by code_simp
  have r: "snd (createTree [record_A]) = Some ''A''"
    using createTree_never_fails [of "[record_A]", THEN conjunct1] i by simp
  have k: "children_refs \<lparr>obj = new_CRAXNode record_A, children_refs = [None]\<rparr> =
     map (\<lambda>childId. if childId \<in> p_nodeId ` set [record_A] then Some childId else None)
       (case p_childIds (payload (obj \<lparr>obj = new_CRAXNode record_A, children_refs = [None]\<rparr>))
        of None \<Rightarrow> [] | Some ids \<Rightarrow> ids)"
    using createTree_never_fails [of "[record_A]", THEN conjunct2, THEN conjunct2,
            rule_format, OF m]
    by (rule conjunct2)
  from m r k show ?thesis by (intro conjI)
qed

end
